theory Spec2Isabelle
  imports Main "HOL-Library.Word"
begin

section \<open>The grid engine of main.c\<close>

text \<open>
  The board is an \<open>int **\<close>: an array of \<open>kBoardHeight\<close> rows, each an array of
  \<open>kBoardWidth\<close> C ints. A cell is a 32-bit word (a C \<open>int\<close>, read as unsigned where the
  code adds it to the \<open>Uint32\<close> counter), a row is a list of cells, a grid a list of rows.
  Indices are the loop counters of the code, which stay below 40, so they are naturals.
\<close>

type_synonym cell = "32 word"
type_synonym grid = "cell list list"

definition kBoardWidth :: nat where "kBoardWidth = 40"
definition kMaxWidth :: nat where "kMaxWidth = 39"
definition kBoardHeight :: nat where "kBoardHeight = 30"
definition kMaxHeight :: nat where "kMaxHeight = 29"

text \<open>
  The two buffers of \<open>struct GameContainer\<close>, \<open>game->board\<close> and \<open>game->temp\<close>; its
  other fields belong to the user interface. \<open>initialize_game\<close> allocates both with \<open>kBoardHeight\<close> rows of
  \<open>kBoardWidth\<close> ints, in separate memory, and nothing reallocates them: \<open>wf_grid\<close> is
  that shape. The code indexes without any check, so its behaviour is defined on grids of
  that shape only, and every statement below is about such grids.
\<close>

record GameContainer =
  game_board :: grid
  game_temp :: grid

definition wf_grid :: "grid \<Rightarrow> bool" where
  "wf_grid g = (length g = kBoardHeight \<and> list_all (\<lambda>row. length row = kBoardWidth) g)"

definition wf_game :: "GameContainer \<Rightarrow> bool" where
  "wf_game game = (wf_grid (game_board game) \<and> wf_grid (game_temp game))"

text \<open>The assignment \<open>g[i][j] = v\<close>.\<close>

definition set_cell :: "grid \<Rightarrow> nat \<Rightarrow> nat \<Rightarrow> cell \<Rightarrow> grid" where
  "set_cell g i j v = g[i := (g ! i)[j := v]]"

subsection \<open>board_compute_thread\<close>

text \<open>
  Lines 172 to 220: the \<open>Uint32\<close> counter \<open>count\<close> starts at 0 and each guarded
  statement \<open>count += board[..][..]\<close> adds one neighbour, modulo \<open>2 ^ 32\<close>.
\<close>

definition count_around :: "grid \<Rightarrow> nat \<Rightarrow> nat \<Rightarrow> 32 word" where
  "count_around board height width =
    (let count = 0;
         count = (if height \<noteq> 0 then
                    (let count = (if width \<noteq> 0
                                  then count + board ! (height - 1) ! (width - 1) else count);
                         count = count + board ! (height - 1) ! width;
                         count = (if width < kMaxWidth
                                  then count + board ! (height - 1) ! (width + 1) else count)
                     in count)
                  else count);
         count = (if width \<noteq> 0 then count + board ! height ! (width - 1) else count);
         count = (if width < kMaxWidth then count + board ! height ! (width + 1) else count);
         count = (if height < kMaxHeight then
                    (let count = (if width \<noteq> 0
                                  then count + board ! (height + 1) ! (width - 1) else count);
                         count = count + board ! (height + 1) ! width;
                         count = (if width < kMaxWidth
                                  then count + board ! (height + 1) ! (width + 1) else count)
                     in count)
                  else count)
     in count)"

text \<open>Lines 222 to 236: the value stored in \<open>temp[height][width]\<close>.\<close>

definition next_state :: "cell \<Rightarrow> 32 word \<Rightarrow> cell" where
  "next_state self count =
    (if self = 0 \<and> count = 3 then 1
     else if self = 1 \<and> (count = 2 \<or> count = 3) then 1
     else 0)"

text \<open>One pass of the body of the \<open>for\<close> loop over \<open>width\<close>.\<close>

definition compute_cell :: "grid \<Rightarrow> nat \<Rightarrow> nat \<Rightarrow> grid \<Rightarrow> grid" where
  "compute_cell board height width temp =
     set_cell temp height width
       (next_state (board ! height ! width) (count_around board height width))"

definition board_compute_thread :: "grid \<Rightarrow> grid \<Rightarrow> nat \<Rightarrow> grid" where
  "board_compute_thread board temp height =
     fold (compute_cell board height) [0..<kBoardWidth] temp"

subsection \<open>board_compute\<close>

text \<open>The copy loops of lines 255 to 261, shared by both strategies up to the order
  in which the columns of a row are copied.\<close>

definition copy_row :: "grid \<Rightarrow> nat \<Rightarrow> nat list \<Rightarrow> grid \<Rightarrow> grid" where
  "copy_row temp i js board = fold (\<lambda>j b. set_cell b i j (temp ! i ! j)) js board"

definition board_compute :: "grid \<Rightarrow> grid \<Rightarrow> grid \<times> grid" where
  "board_compute board temp =
    (let temp = fold (\<lambda>i t. board_compute_thread board t i) [0..<kBoardHeight] temp;
         board = fold (\<lambda>i b. copy_row temp i [0..<kBoardWidth] b) [0..<kBoardHeight] board
     in (board, temp))"

subsection \<open>board_compute_openmp\<close>

text \<open>
  \<open>#pragma omp parallel for\<close> hands the iterations of the loop that follows it to a
  team of threads and joins them at the end of the loop; which thread runs which
  iteration, and when, is the runtime's choice. An iteration of the first loop reads
  \<open>board\<close>, which no iteration writes, and writes row \<open>i\<close> of \<open>temp\<close> only; an iteration
  of the inner copy loop writes the single cell \<open>board[i][j]\<close>. The model takes the order
  in which the iterations take effect as a parameter: \<open>rows\<close> for the first loop, and
  \<open>cols i\<close> for the copy of row \<open>i\<close> (the outer copy loop over \<open>i\<close> is sequential in the
  code). A schedule of a loop of \<open>n\<close> iterations is a permutation of \<open>[0..<n]\<close>: \<open>n\<close>
  distinct indices below \<open>n\<close>. The
  trailing \<open>#pragma omp barrier\<close> stands outside any parallel region and changes no
  memory.
\<close>

definition is_schedule :: "nat \<Rightarrow> nat list \<Rightarrow> bool" where
  "is_schedule n xs = (length xs = n \<and> distinct xs \<and> list_all (\<lambda>i. i < n) xs)"

definition board_compute_openmp ::
    "nat list \<Rightarrow> (nat \<Rightarrow> nat list) \<Rightarrow> grid \<Rightarrow> grid \<Rightarrow> grid \<times> grid" where
  "board_compute_openmp rows cols board temp =
    (let temp = fold (\<lambda>i t. board_compute_thread board t i) rows temp;
         board = fold (\<lambda>i b. copy_row temp i (cols i) b) [0..<kBoardHeight] board
     in (board, temp))"

subsection \<open>board_reset\<close>

text \<open>Lines 301 to 308: both stores of the loop body act on the game passed by pointer.\<close>

definition board_reset :: "GameContainer \<Rightarrow> GameContainer" where
  "board_reset game =
     fold (\<lambda>i game.
        fold (\<lambda>j game. game\<lparr>game_board := set_cell (game_board game) i j 0,
                             game_temp := set_cell (game_temp game) i j 0\<rparr>)
          [0..<kBoardWidth] game)
       [0..<kBoardHeight] game"

subsection \<open>The start of main\<close>

text \<open>
  Lines 637 to 673 of \<open>main\<close>: the command line selects the two function pointers of the
  game, or makes the program return \<open>EXIT_FAILURE\<close> before any library is initialised.
  \<open>argv\<close> is the argument vector with the program name first, \<open>argc\<close> its length, and
  \<open>strcmp\<close> returning 0 is equality of the strings. \<open>useOpenGL\<close> is assigned on one
  path only; \<open>None\<close> is the field of the local \<open>game\<close> never assigned.
\<close>

datatype ComputeBoardFunc = Board_compute | Board_compute_openmp

datatype DrawBoardFunc = Draw_board | Draw_board_openmp | Draw_board_multithread

datatype exit_status = EXIT_SUCCESS | EXIT_FAILURE

record startup =
  computeBoardFunc :: ComputeBoardFunc
  drawBoardFunc :: DrawBoardFunc
  useOpenGL :: "bool option"

definition main_startup :: "string list \<Rightarrow> exit_status + startup" where
  "main_startup argv =
    (if length argv = 1 then
       Inr \<lparr>computeBoardFunc = Board_compute, drawBoardFunc = Draw_board, useOpenGL = None\<rparr>
     else if length argv = 2 then
       (if argv ! 1 = ''--openmp'' then
          Inr \<lparr>computeBoardFunc = Board_compute_openmp, drawBoardFunc = Draw_board_openmp,
               useOpenGL = None\<rparr>
        else if argv ! 1 = ''--thread'' then
          Inr \<lparr>computeBoardFunc = Board_compute, drawBoardFunc = Draw_board_multithread,
               useOpenGL = None\<rparr>
        else if argv ! 1 = ''--opengl'' then
          Inr \<lparr>computeBoardFunc = Board_compute, drawBoardFunc = Draw_board,
               useOpenGL = Some True\<rparr>
        else Inl EXIT_FAILURE)
     else Inl EXIT_FAILURE)"

text \<open>The compute strategy a start of the program ends with, or its exit status.\<close>

definition selected_strategy :: "string list \<Rightarrow> exit_status + ComputeBoardFunc" where
  "selected_strategy argv = map_sum id computeBoardFunc (main_startup argv)"

section \<open>The specification's notions\<close>

text \<open>
  The definitions of this section follow the words of the specification, not the code;
  the theorems compare the code with them. The 8-neighbourhood of a cell is the list of
  the surrounding coordinates that fall inside the grid, the clipped sum adds the cells
  found there, and the live-neighbour count is the number of them that are alive.
\<close>

definition offsets :: "(int \<times> int) list" where
  "offsets = [(-1, -1), (-1, 0), (-1, 1), (0, -1), (0, 1), (1, -1), (1, 0), (1, 1)]"

definition in_grid :: "int \<times> int \<Rightarrow> bool" where
  "in_grid p =
     (0 \<le> fst p \<and> fst p < int kBoardHeight \<and> 0 \<le> snd p \<and> snd p < int kBoardWidth)"

definition neighbours_spec :: "nat \<Rightarrow> nat \<Rightarrow> (nat \<times> nat) list" where
  "neighbours_spec h w =
     map (\<lambda>(r, c). (nat r, nat c))
       (filter in_grid (map (\<lambda>(dr, dc). (int h + dr, int w + dc)) offsets))"

definition clipped_sum_spec :: "grid \<Rightarrow> nat \<Rightarrow> nat \<Rightarrow> 32 word" where
  "clipped_sum_spec board h w =
     sum_list (map (\<lambda>(r, c). board ! r ! c) (neighbours_spec h w))"

definition live_neighbours_spec :: "grid \<Rightarrow> nat \<Rightarrow> nat \<Rightarrow> nat" where
  "live_neighbours_spec board h w =
     length (filter (\<lambda>(r, c). board ! r ! c = 1) (neighbours_spec h w))"

text \<open>Section 4.2: birth on exactly 3, survival on 2 or 3, dead otherwise.\<close>

definition nextState_spec :: "bool \<Rightarrow> nat \<Rightarrow> bool" where
  "nextState_spec selfAlive liveNeighborCount =
     (if selfAlive then liveNeighborCount = 2 \<or> liveNeighborCount = 3
      else liveNeighborCount = 3)"

text \<open>A grid of binary cells, and the grid whose every cell is dead.\<close>

definition binary_grid :: "grid \<Rightarrow> bool" where
  "binary_grid g = list_all (list_all (\<lambda>c. c = 0 \<or> c = 1)) g"

definition dead_grid :: grid where
  "dead_grid = replicate kBoardHeight (replicate kBoardWidth 0)"

text \<open>
  The grid whose live cells are the listed (row, column) pairs, and the patterns of the
  testable properties: the 2 by 2 block with top left corner \<open>(r, c)\<close>, and the
  horizontal and the vertical line of three cells centred at \<open>(r, c)\<close>.
\<close>

definition grid_of :: "(nat \<times> nat) list \<Rightarrow> grid" where
  "grid_of alive =
     map (\<lambda>h. map (\<lambda>w. if (h, w) \<in> set alive then 1 else 0) [0..<kBoardWidth])
       [0..<kBoardHeight]"

definition block :: "nat \<Rightarrow> nat \<Rightarrow> (nat \<times> nat) list" where
  "block r c = [(r, c), (r, c + 1), (r + 1, c), (r + 1, c + 1)]"

definition hline :: "nat \<Rightarrow> nat \<Rightarrow> (nat \<times> nat) list" where
  "hline r c = [(r, c - 1), (r, c), (r, c + 1)]"

definition vline :: "nat \<Rightarrow> nat \<Rightarrow> (nat \<times> nat) list" where
  "vline r c = [(r - 1, c), (r, c), (r + 1, c)]"

text \<open>The grid both buffers hold after a generation, as a closed form.\<close>

definition next_grid :: "grid \<Rightarrow> grid" where
  "next_grid board =
     map (\<lambda>h. map (\<lambda>w. next_state (board ! h ! w) (count_around board h w)) [0..<kBoardWidth])
       [0..<kBoardHeight]"

section \<open>Grids and single stores\<close>

lemma wf_grid_length: "wf_grid g \<Longrightarrow> length g = kBoardHeight"
  by (simp add: wf_grid_def)

lemma wf_grid_row: "wf_grid g \<Longrightarrow> h < kBoardHeight \<Longrightarrow> length (g ! h) = kBoardWidth"
  by (simp add: wf_grid_def list_all_length)

lemma grid_eqI:
  assumes "wf_grid a" and "wf_grid b"
    and "\<And>h w. h < kBoardHeight \<Longrightarrow> w < kBoardWidth \<Longrightarrow> a ! h ! w = b ! h ! w"
  shows "a = b"
proof (rule nth_equalityI)
  show "length a = length b" using assms(1,2) by (simp add: wf_grid_length)
next
  fix h assume "h < length a"
  then have h: "h < kBoardHeight" using assms(1) by (simp add: wf_grid_length)
  show "a ! h = b ! h"
  proof (rule nth_equalityI)
    show "length (a ! h) = length (b ! h)" using assms(1,2) h by (simp add: wf_grid_row)
  next
    fix w assume "w < length (a ! h)"
    then have "w < kBoardWidth" using assms(1) h by (simp add: wf_grid_row)
    then show "a ! h ! w = b ! h ! w" using h assms(3) by simp
  qed
qed

lemma wf_set_cell: "wf_grid g \<Longrightarrow> wf_grid (set_cell g i j v)"
  by (cases "i < length g") (auto simp: wf_grid_def set_cell_def list_all_length nth_list_update)

lemma nth_set_cell:
  "wf_grid g \<Longrightarrow> h < kBoardHeight \<Longrightarrow> w < kBoardWidth \<Longrightarrow>
   set_cell g i j v ! h ! w = (if h = i \<and> w = j then v else g ! h ! w)"
  by (cases "i < length g") (auto simp: wf_grid_def set_cell_def list_all_length nth_list_update)

lemma wf_fold_set_cell:
  "wf_grid g \<Longrightarrow> wf_grid (fold (\<lambda>j b. set_cell b i j (v j)) js g)"
  by (induction js arbitrary: g) (simp_all add: wf_set_cell)

lemma nth_fold_set_cell:
  "wf_grid g \<Longrightarrow> h < kBoardHeight \<Longrightarrow> w < kBoardWidth \<Longrightarrow>
   fold (\<lambda>j b. set_cell b i j (v j)) js g ! h ! w =
     (if h = i \<and> w \<in> set js then v w else g ! h ! w)"
proof (induction js arbitrary: g)
  case Nil
  then show ?case by simp
next
  case (Cons j js)
  then show ?case by (auto simp: wf_set_cell nth_set_cell)
qed

lemma wf_board_compute_thread: "wf_grid temp \<Longrightarrow> wf_grid (board_compute_thread board temp height)"
  unfolding board_compute_thread_def compute_cell_def by (rule wf_fold_set_cell)

lemma nth_board_compute_thread:
  "wf_grid temp \<Longrightarrow> h < kBoardHeight \<Longrightarrow> w < kBoardWidth \<Longrightarrow>
   board_compute_thread board temp height ! h ! w =
     (if h = height then next_state (board ! height ! w) (count_around board height w)
      else temp ! h ! w)"
  unfolding board_compute_thread_def compute_cell_def
  by (simp add: nth_fold_set_cell)

lemma wf_compute_rows:
  "wf_grid temp \<Longrightarrow> wf_grid (fold (\<lambda>i t. board_compute_thread board t i) rows temp)"
  by (induction rows arbitrary: temp) (simp_all add: wf_board_compute_thread)

lemma nth_compute_rows:
  "wf_grid temp \<Longrightarrow> h < kBoardHeight \<Longrightarrow> w < kBoardWidth \<Longrightarrow>
   fold (\<lambda>i t. board_compute_thread board t i) rows temp ! h ! w =
     (if h \<in> set rows then next_state (board ! h ! w) (count_around board h w)
      else temp ! h ! w)"
proof (induction rows arbitrary: temp)
  case Nil
  then show ?case by simp
next
  case (Cons i rows)
  then show ?case by (auto simp: wf_board_compute_thread nth_board_compute_thread)
qed

lemma wf_copy_row: "wf_grid b \<Longrightarrow> wf_grid (copy_row t i js b)"
  unfolding copy_row_def by (rule wf_fold_set_cell)

lemma nth_copy_row:
  "wf_grid b \<Longrightarrow> h < kBoardHeight \<Longrightarrow> w < kBoardWidth \<Longrightarrow>
   copy_row t i js b ! h ! w = (if h = i \<and> w \<in> set js then t ! i ! w else b ! h ! w)"
  unfolding copy_row_def by (simp add: nth_fold_set_cell)

lemma wf_copy_rows:
  "wf_grid b \<Longrightarrow> wf_grid (fold (\<lambda>i b. copy_row t i (cols i) b) is b)"
  by (induction "is" arbitrary: b) (simp_all add: wf_copy_row)

lemma nth_copy_rows:
  "wf_grid b \<Longrightarrow> h < kBoardHeight \<Longrightarrow> w < kBoardWidth \<Longrightarrow>
   fold (\<lambda>i b. copy_row t i (cols i) b) is b ! h ! w =
     (if h \<in> set is \<and> w \<in> set (cols h) then t ! h ! w else b ! h ! w)"
proof (induction "is" arbitrary: b)
  case Nil
  then show ?case by simp
next
  case (Cons i "is")
  then show ?case by (auto simp: wf_copy_row nth_copy_row)
qed

lemma is_schedule_set: "is_schedule n xs \<Longrightarrow> set xs = {0..<n}"
proof -
  assume a: "is_schedule n xs"
  then have sub: "set xs \<subseteq> {0..<n}" by (auto simp: is_schedule_def list_all_iff)
  have "card (set xs) = n" using a by (simp add: is_schedule_def distinct_card)
  then show ?thesis using sub by (simp add: card_subset_eq)
qed

lemma is_schedule_upt: "is_schedule n [0..<n]"
  by (simp add: is_schedule_def list_all_iff)

lemma is_schedule_rev: "is_schedule n (rev [0..<n])"
  by (simp add: is_schedule_def list_all_iff)

section \<open>One generation in closed form\<close>

lemma wf_next_grid: "wf_grid (next_grid board)"
  by (simp add: wf_grid_def next_grid_def list_all_iff)

lemma nth_next_grid:
  "h < kBoardHeight \<Longrightarrow> w < kBoardWidth \<Longrightarrow>
   next_grid board ! h ! w = next_state (board ! h ! w) (count_around board h w)"
  by (simp add: next_grid_def)

lemma compute_rows_eq:
  assumes "wf_grid temp" and "is_schedule kBoardHeight rows"
  shows "fold (\<lambda>i t. board_compute_thread board t i) rows temp = next_grid board"
proof (rule grid_eqI)
  show "wf_grid (fold (\<lambda>i t. board_compute_thread board t i) rows temp)"
    using assms(1) by (rule wf_compute_rows)
  show "wf_grid (next_grid board)" by (rule wf_next_grid)
next
  fix h w assume "h < kBoardHeight" and "w < kBoardWidth"
  then show "fold (\<lambda>i t. board_compute_thread board t i) rows temp ! h ! w = next_grid board ! h ! w"
    using assms by (simp add: nth_compute_rows nth_next_grid is_schedule_set)
qed

text \<open>
  The threads of the first parallel loop run their iterations side by side, so the stores
  into \<open>temp\<close> of different rows may interleave. Each pass of the loop body reads
  \<open>board\<close> only and stores one cell of \<open>temp\<close>, so the passes can take effect in any
  order at all, cell by cell, and leave the same buffer: the order of whole rows that
  \<open>board_compute_openmp\<close> takes as its parameter loses nothing.
\<close>

lemma wf_compute_cell: "wf_grid temp \<Longrightarrow> wf_grid (compute_cell board i w temp)"
  by (simp add: compute_cell_def wf_set_cell)

lemma nth_compute_cell:
  "wf_grid temp \<Longrightarrow> h < kBoardHeight \<Longrightarrow> w < kBoardWidth \<Longrightarrow>
   compute_cell board i j temp ! h ! w =
     (if h = i \<and> w = j then next_state (board ! i ! j) (count_around board i j)
      else temp ! h ! w)"
  by (simp add: compute_cell_def nth_set_cell)

lemma wf_compute_cells:
  "wf_grid temp \<Longrightarrow> wf_grid (fold (\<lambda>(i, w). compute_cell board i w) steps temp)"
  by (induction steps arbitrary: temp) (auto simp: wf_compute_cell)

lemma nth_compute_cells:
  "wf_grid temp \<Longrightarrow> h < kBoardHeight \<Longrightarrow> w < kBoardWidth \<Longrightarrow>
   fold (\<lambda>(i, w). compute_cell board i w) steps temp ! h ! w =
     (if (h, w) \<in> set steps then next_state (board ! h ! w) (count_around board h w)
      else temp ! h ! w)"
proof (induction steps arbitrary: temp)
  case Nil
  then show ?case by simp
next
  case (Cons s steps)
  then show ?case
    by (cases s) (auto simp: wf_compute_cell nth_compute_cell)
qed

lemma compute_cells_any_order:
  assumes "wf_grid temp" and "{0..<kBoardHeight} \<times> {0..<kBoardWidth} \<subseteq> set steps"
  shows "fold (\<lambda>(i, w). compute_cell board i w) steps temp = next_grid board"
proof (rule grid_eqI)
  show "wf_grid (fold (\<lambda>(i, w). compute_cell board i w) steps temp)"
    using assms(1) by (rule wf_compute_cells)
  show "wf_grid (next_grid board)" by (rule wf_next_grid)
next
  fix h w assume hw: "h < kBoardHeight" "w < kBoardWidth"
  then have "(h, w) \<in> set steps" using assms(2) by auto
  then show "fold (\<lambda>(i, w). compute_cell board i w) steps temp ! h ! w = next_grid board ! h ! w"
    using hw assms(1) by (simp add: nth_compute_cells nth_next_grid)
qed

lemma copy_rows_eq:
  assumes "wf_grid b" and "wf_grid t" and "\<And>i. i < kBoardHeight \<Longrightarrow> is_schedule kBoardWidth (cols i)"
  shows "fold (\<lambda>i b. copy_row t i (cols i) b) [0..<kBoardHeight] b = t"
proof (rule grid_eqI)
  show "wf_grid (fold (\<lambda>i b. copy_row t i (cols i) b) [0..<kBoardHeight] b)"
    using assms(1) by (rule wf_copy_rows)
  show "wf_grid t" by fact
next
  fix h w assume hw: "h < kBoardHeight" "w < kBoardWidth"
  then have "w \<in> set (cols h)" using assms(3) [of h] by (simp add: is_schedule_set)
  then show "fold (\<lambda>i b. copy_row t i (cols i) b) [0..<kBoardHeight] b ! h ! w = t ! h ! w"
    using hw assms(1) by (simp add: nth_copy_rows)
qed

lemma board_compute_openmp_eq:
  assumes "wf_grid board" and "wf_grid temp" and "is_schedule kBoardHeight rows"
    and "list_all (\<lambda>i. is_schedule kBoardWidth (cols i)) [0..<kBoardHeight]"
  shows "board_compute_openmp rows cols board temp = (next_grid board, next_grid board)"
proof -
  have "\<And>i. i < kBoardHeight \<Longrightarrow> is_schedule kBoardWidth (cols i)"
    using assms(4) by (simp add: list_all_iff)
  then show ?thesis
    using assms(1-3)
    by (simp add: board_compute_openmp_def Let_def compute_rows_eq copy_rows_eq wf_next_grid)
qed

lemma board_compute_eq:
  assumes "wf_grid board" and "wf_grid temp"
  shows "board_compute board temp = (next_grid board, next_grid board)"
  using assms
  by (simp add: board_compute_def Let_def compute_rows_eq copy_rows_eq wf_next_grid is_schedule_upt)

lemma next_state_binary: "next_state s c = 0 \<or> next_state s c = 1"
  by (simp add: next_state_def)

lemma binary_next_grid: "binary_grid (next_grid board)"
  by (auto simp: binary_grid_def next_grid_def list_all_iff next_state_binary)

section \<open>The code against the specification's notions\<close>

lemma count_around_clipped:
  assumes "h < kBoardHeight" and "w < kBoardWidth"
  shows "count_around board h w = clipped_sum_spec board h w"
proof -
  consider "h = 0" | "0 < h" "h < 29" | "h = 29" using assms(1) unfolding kBoardHeight_def by arith
  then show ?thesis
  proof cases
    case 1
    consider "w = 0" | "0 < w" "w < 39" | "w = 39" using assms(2) unfolding kBoardWidth_def by arith
    then show ?thesis using 1
      by cases (simp_all add: count_around_def clipped_sum_spec_def neighbours_spec_def offsets_def
         in_grid_def kBoardHeight_def kBoardWidth_def kMaxHeight_def kMaxWidth_def nat_diff_distrib nat_add_distrib)
  next
    case 2
    consider "w = 0" | "0 < w" "w < 39" | "w = 39" using assms(2) unfolding kBoardWidth_def by arith
    then show ?thesis using 2
      by cases (simp_all add: count_around_def clipped_sum_spec_def neighbours_spec_def offsets_def
         in_grid_def kBoardHeight_def kBoardWidth_def kMaxHeight_def kMaxWidth_def nat_diff_distrib nat_add_distrib)
  next
    case 3
    consider "w = 0" | "0 < w" "w < 39" | "w = 39" using assms(2) unfolding kBoardWidth_def by arith
    then show ?thesis using 3
      by cases (simp_all add: count_around_def clipped_sum_spec_def neighbours_spec_def offsets_def
         in_grid_def kBoardHeight_def kBoardWidth_def kMaxHeight_def kMaxWidth_def nat_diff_distrib nat_add_distrib)
  qed
qed

lemma wf_grid_of: "wf_grid (grid_of alive)"
  by (simp add: wf_grid_def grid_of_def list_all_iff)

lemma nth_grid_of:
  "h < kBoardHeight \<Longrightarrow> w < kBoardWidth \<Longrightarrow>
   grid_of alive ! h ! w = (if (h, w) \<in> set alive then 1 else 0)"
  by (simp add: grid_of_def)

lemma binary_grid_of: "binary_grid (grid_of alive)"
  by (auto simp: binary_grid_def grid_of_def list_all_iff)

lemma neighbours_in_grid:
  "(r, c) \<in> set (neighbours_spec h w) \<Longrightarrow> r < kBoardHeight \<and> c < kBoardWidth"
  by (auto simp: neighbours_spec_def in_grid_def)

lemma length_neighbours: "length (neighbours_spec h w) \<le> 8"
proof -
  have "length (neighbours_spec h w) \<le> length offsets"
    unfolding neighbours_spec_def length_map
    by (rule order_trans [OF length_filter_le]) simp
  then show ?thesis by (simp add: offsets_def)
qed

lemma sum_list_binary:
  fixes f :: "'a \<Rightarrow> 32 word"
  assumes "\<And>x. x \<in> set xs \<Longrightarrow> f x = 0 \<or> f x = 1"
  shows "sum_list (map f xs) = of_nat (length (filter (\<lambda>x. f x = 1) xs))"
  using assms by (induction xs) auto

lemma binary_grid_nth:
  "binary_grid g \<Longrightarrow> wf_grid g \<Longrightarrow> h < kBoardHeight \<Longrightarrow> w < kBoardWidth \<Longrightarrow>
   g ! h ! w = 0 \<or> g ! h ! w = 1"
  by (simp add: binary_grid_def wf_grid_def list_all_length)

lemma count_around_live:
  assumes "wf_grid board" and "binary_grid board" and "h < kBoardHeight" and "w < kBoardWidth"
  shows "count_around board h w = of_nat (live_neighbours_spec board h w)"
proof -
  have "sum_list (map (\<lambda>(r, c). board ! r ! c) (neighbours_spec h w)) =
        of_nat (length (filter (\<lambda>x. (case x of (r, c) \<Rightarrow> board ! r ! c) = 1) (neighbours_spec h w)))"
  proof (rule sum_list_binary)
    fix x assume "x \<in> set (neighbours_spec h w)"
    then have "fst x < kBoardHeight \<and> snd x < kBoardWidth"
      using neighbours_in_grid [of "fst x" "snd x" h w] by simp
    then have "board ! fst x ! snd x = 0 \<or> board ! fst x ! snd x = 1"
      using assms(1,2) by (simp add: binary_grid_nth)
    then show "(case x of (r, c) \<Rightarrow> board ! r ! c) = 0 \<or> (case x of (r, c) \<Rightarrow> board ! r ! c) = 1"
      by (simp add: case_prod_beta)
  qed
  moreover have "(\<lambda>(r, c). board ! r ! c = 1) = (\<lambda>x. (case x of (r, c) \<Rightarrow> board ! r ! c) = 1)"
    by auto
  ultimately show ?thesis
    using assms(3,4)
    by (simp add: count_around_clipped clipped_sum_spec_def live_neighbours_spec_def)
qed

lemma small_word_eq:
  "n \<le> 8 \<Longrightarrow> m \<le> 8 \<Longrightarrow> (of_nat n :: 32 word) = of_nat m \<longleftrightarrow> n = m"
  by (simp add: word_of_nat_eq_iff take_bit_nat_eq_self)

lemma next_state_spec:
  assumes "s = 0 \<or> s = 1" and "n \<le> 8"
  shows "next_state s (of_nat n) = (if nextState_spec (s = 1) n then 1 else 0)"
proof -
  have "(of_nat n :: 32 word) = 3 \<longleftrightarrow> n = 3" using small_word_eq [of n 3] assms(2) by simp
  moreover have "(of_nat n :: 32 word) = 2 \<longleftrightarrow> n = 2" using small_word_eq [of n 2] assms(2) by simp
  ultimately show ?thesis using assms(1) by (auto simp: next_state_def nextState_spec_def)
qed

lemmas cell_simps = count_around_def Let_def nth_grid_of next_state_def
  kBoardHeight_def kBoardWidth_def kMaxHeight_def kMaxWidth_def

section \<open>Reset in closed form\<close>

lemma reset_row_board:
  "game_board (fold (\<lambda>j game. game\<lparr>game_board := set_cell (game_board game) i j 0,
        game_temp := set_cell (game_temp game) i j 0\<rparr>) js game) =
   fold (\<lambda>j b. set_cell b i j 0) js (game_board game)"
  by (induction js arbitrary: game) simp_all

lemma reset_row_temp:
  "game_temp (fold (\<lambda>j game. game\<lparr>game_board := set_cell (game_board game) i j 0,
        game_temp := set_cell (game_temp game) i j 0\<rparr>) js game) =
   fold (\<lambda>j b. set_cell b i j 0) js (game_temp game)"
  by (induction js arbitrary: game) simp_all

lemma reset_rows_board:
  "game_board (fold (\<lambda>i game. fold (\<lambda>j game. game\<lparr>game_board := set_cell (game_board game) i j 0,
        game_temp := set_cell (game_temp game) i j 0\<rparr>) js game) is game) =
   fold (\<lambda>i b. fold (\<lambda>j b. set_cell b i j 0) js b) is (game_board game)"
  by (induction "is" arbitrary: game) (simp_all add: reset_row_board)

lemma reset_rows_temp:
  "game_temp (fold (\<lambda>i game. fold (\<lambda>j game. game\<lparr>game_board := set_cell (game_board game) i j 0,
        game_temp := set_cell (game_temp game) i j 0\<rparr>) js game) is game) =
   fold (\<lambda>i b. fold (\<lambda>j b. set_cell b i j 0) js b) is (game_temp game)"
  by (induction "is" arbitrary: game) (simp_all add: reset_row_temp)

lemma wf_dead_grid: "wf_grid dead_grid"
  by (simp add: wf_grid_def dead_grid_def list_all_iff)

lemma nth_dead_grid: "h < kBoardHeight \<Longrightarrow> w < kBoardWidth \<Longrightarrow> dead_grid ! h ! w = 0"
  by (simp add: dead_grid_def)

lemma wf_clear_rows:
  "wf_grid g \<Longrightarrow> wf_grid (fold (\<lambda>i b. fold (\<lambda>j b. set_cell b i j 0) js b) is g)"
  by (induction "is" arbitrary: g) (simp_all add: wf_fold_set_cell)

lemma nth_clear_rows:
  "wf_grid g \<Longrightarrow> h < kBoardHeight \<Longrightarrow> w < kBoardWidth \<Longrightarrow>
   fold (\<lambda>i b. fold (\<lambda>j b. set_cell b i j 0) js b) is g ! h ! w =
     (if h \<in> set is \<and> w \<in> set js then 0 else g ! h ! w)"
proof (induction "is" arbitrary: g)
  case Nil
  then show ?case by simp
next
  case (Cons i "is")
  then show ?case by (auto simp: wf_fold_set_cell nth_fold_set_cell)
qed

lemma clear_rows_eq:
  assumes "wf_grid g"
  shows "fold (\<lambda>i b. fold (\<lambda>j b. set_cell b i j 0) [0..<kBoardWidth] b) [0..<kBoardHeight] g =
         dead_grid"
  by (rule grid_eqI) (simp_all add: assms wf_clear_rows wf_dead_grid nth_clear_rows nth_dead_grid)

lemma board_reset_eq:
  assumes "wf_game game"
  shows "board_reset game = \<lparr>game_board = dead_grid, game_temp = dead_grid\<rparr>"
proof (rule GameContainer.equality)
  show "game_board (board_reset game) = game_board \<lparr>game_board = dead_grid, game_temp = dead_grid\<rparr>"
    using assms by (simp add: board_reset_def reset_rows_board clear_rows_eq wf_game_def)
  show "game_temp (board_reset game) = game_temp \<lparr>game_board = dead_grid, game_temp = dead_grid\<rparr>"
    using assms by (simp add: board_reset_def reset_rows_temp clear_rows_eq wf_game_def)
qed simp

section \<open>The block and the blinker, cell by cell\<close>

text \<open>
  Each proof splits the position of the cell relative to the pattern, by row and by column,
  into the bands in which the neighbourhood meets the pattern in the same way.
\<close>

lemma next_grid_eqI:
  assumes "wf_grid g'"
    and "\<And>h w. h < kBoardHeight \<Longrightarrow> w < kBoardWidth \<Longrightarrow>
           next_state (g ! h ! w) (count_around g h w) = g' ! h ! w"
  shows "next_grid g = g'"
  by (rule grid_eqI) (simp_all add: wf_next_grid nth_next_grid assms)

lemma block_cell:
  assumes "r + 1 < kBoardHeight" and "c + 1 < kBoardWidth"
    and "h < kBoardHeight" and "w < kBoardWidth"
  shows "next_state (grid_of (block r c) ! h ! w) (count_around (grid_of (block r c)) h w) =
         grid_of (block r c) ! h ! w"
proof -
  consider "h + 1 < r" | "r = h + 1" | "h = r" | "h = r + 1" | "h = r + 2" | "r + 2 < h"
    by arith
  then show ?thesis
  proof cases
    case 1
    consider "w + 1 < c" | "c = w + 1" | "w = c" | "w = c + 1" | "w = c + 2" | "c + 2 < w"
      by arith
    then show ?thesis using 1 assms
      by cases (auto simp add: cell_simps block_def)
  next
    case 2
    consider "w + 1 < c" | "c = w + 1" | "w = c" | "w = c + 1" | "w = c + 2" | "c + 2 < w"
      by arith
    then show ?thesis using 2 assms
      by cases (auto simp add: cell_simps block_def)
  next
    case 3
    consider "w + 1 < c" | "c = w + 1" | "w = c" | "w = c + 1" | "w = c + 2" | "c + 2 < w"
      by arith
    then show ?thesis using 3 assms
      by cases (auto simp add: cell_simps block_def)
  next
    case 4
    consider "w + 1 < c" | "c = w + 1" | "w = c" | "w = c + 1" | "w = c + 2" | "c + 2 < w"
      by arith
    then show ?thesis using 4 assms
      by cases (auto simp add: cell_simps block_def)
  next
    case 5
    consider "w + 1 < c" | "c = w + 1" | "w = c" | "w = c + 1" | "w = c + 2" | "c + 2 < w"
      by arith
    then show ?thesis using 5 assms
      by cases (auto simp add: cell_simps block_def)
  next
    case 6
    consider "w + 1 < c" | "c = w + 1" | "w = c" | "w = c + 1" | "w = c + 2" | "c + 2 < w"
      by arith
    then show ?thesis using 6 assms
      by cases (auto simp add: cell_simps block_def)
  qed
qed

lemma hline_cell:
  assumes "1 \<le> r" and "r + 1 < kBoardHeight" and "1 \<le> c" and "c + 1 < kBoardWidth"
    and "h < kBoardHeight" and "w < kBoardWidth"
  shows "next_state (grid_of (hline r c) ! h ! w) (count_around (grid_of (hline r c)) h w) =
         grid_of (vline r c) ! h ! w"
proof -
  consider "h + 1 < r" | "r = h + 1" | "h = r" | "h = r + 1" | "r + 1 < h"
    by arith
  then show ?thesis
  proof cases
    case 1
    consider "w + 2 < c" | "c = w + 2" | "c = w + 1" | "w = c" | "w = c + 1" | "w = c + 2" | "c + 2 < w"
      by arith
    then show ?thesis using 1 assms
      by cases (auto simp add: cell_simps hline_def vline_def)
  next
    case 2
    consider "w + 2 < c" | "c = w + 2" | "c = w + 1" | "w = c" | "w = c + 1" | "w = c + 2" | "c + 2 < w"
      by arith
    then show ?thesis using 2 assms
      by cases (auto simp add: cell_simps hline_def vline_def)
  next
    case 3
    consider "w + 2 < c" | "c = w + 2" | "c = w + 1" | "w = c" | "w = c + 1" | "w = c + 2" | "c + 2 < w"
      by arith
    then show ?thesis using 3 assms
      by cases (auto simp add: cell_simps hline_def vline_def)
  next
    case 4
    consider "w + 2 < c" | "c = w + 2" | "c = w + 1" | "w = c" | "w = c + 1" | "w = c + 2" | "c + 2 < w"
      by arith
    then show ?thesis using 4 assms
      by cases (auto simp add: cell_simps hline_def vline_def)
  next
    case 5
    consider "w + 2 < c" | "c = w + 2" | "c = w + 1" | "w = c" | "w = c + 1" | "w = c + 2" | "c + 2 < w"
      by arith
    then show ?thesis using 5 assms
      by cases (auto simp add: cell_simps hline_def vline_def)
  qed
qed

lemma vline_cell:
  assumes "1 \<le> r" and "r + 1 < kBoardHeight" and "1 \<le> c" and "c + 1 < kBoardWidth"
    and "h < kBoardHeight" and "w < kBoardWidth"
  shows "next_state (grid_of (vline r c) ! h ! w) (count_around (grid_of (vline r c)) h w) =
         grid_of (hline r c) ! h ! w"
proof -
  consider "h + 2 < r" | "r = h + 2" | "r = h + 1" | "h = r" | "h = r + 1" | "h = r + 2" | "r + 2 < h"
    by arith
  then show ?thesis
  proof cases
    case 1
    consider "w + 1 < c" | "c = w + 1" | "w = c" | "w = c + 1" | "c + 1 < w"
      by arith
    then show ?thesis using 1 assms
      by cases (auto simp add: cell_simps hline_def vline_def)
  next
    case 2
    consider "w + 1 < c" | "c = w + 1" | "w = c" | "w = c + 1" | "c + 1 < w"
      by arith
    then show ?thesis using 2 assms
      by cases (auto simp add: cell_simps hline_def vline_def)
  next
    case 3
    consider "w + 1 < c" | "c = w + 1" | "w = c" | "w = c + 1" | "c + 1 < w"
      by arith
    then show ?thesis using 3 assms
      by cases (auto simp add: cell_simps hline_def vline_def)
  next
    case 4
    consider "w + 1 < c" | "c = w + 1" | "w = c" | "w = c + 1" | "c + 1 < w"
      by arith
    then show ?thesis using 4 assms
      by cases (auto simp add: cell_simps hline_def vline_def)
  next
    case 5
    consider "w + 1 < c" | "c = w + 1" | "w = c" | "w = c + 1" | "c + 1 < w"
      by arith
    then show ?thesis using 5 assms
      by cases (auto simp add: cell_simps hline_def vline_def)
  next
    case 6
    consider "w + 1 < c" | "c = w + 1" | "w = c" | "w = c + 1" | "c + 1 < w"
      by arith
    then show ?thesis using 6 assms
      by cases (auto simp add: cell_simps hline_def vline_def)
  next
    case 7
    consider "w + 1 < c" | "c = w + 1" | "w = c" | "w = c + 1" | "c + 1 < w"
      by arith
    then show ?thesis using 7 assms
      by cases (auto simp add: cell_simps hline_def vline_def)
  qed
qed

lemma block_generation:
  assumes "r + 1 < kBoardHeight" and "c + 1 < kBoardWidth"
  shows "next_grid (grid_of (block r c)) = grid_of (block r c)"
  by (rule next_grid_eqI) (rule wf_grid_of, rule block_cell [OF assms])

lemma hline_generation:
  assumes "1 \<le> r" and "r + 1 < kBoardHeight" and "1 \<le> c" and "c + 1 < kBoardWidth"
  shows "next_grid (grid_of (hline r c)) = grid_of (vline r c)"
  by (rule next_grid_eqI) (rule wf_grid_of, rule hline_cell [OF assms])

lemma vline_generation:
  assumes "1 \<le> r" and "r + 1 < kBoardHeight" and "1 \<le> c" and "c + 1 < kBoardWidth"
  shows "next_grid (grid_of (vline r c)) = grid_of (hline r c)"
  by (rule next_grid_eqI) (rule wf_grid_of, rule vline_cell [OF assms])

section \<open>The properties of the specification\<close>

text \<open>
  C1: the sequential and the OpenMP strategy give the same grids. For every pair of
  buffers of the allocated shape, whatever the cells hold, and for every order in which the
  runtime lets the row iterations and the column copies take effect,
  \<open>board_compute_openmp\<close> leaves both buffers exactly as \<open>board_compute\<close> does.
\<close>

theorem openmp_equals_sequential:
  assumes "wf_grid board" and "wf_grid temp"
    and "is_schedule kBoardHeight rows"
    and "list_all (\<lambda>i. is_schedule kBoardWidth (cols i)) [0..<kBoardHeight]"
  shows "board_compute_openmp rows cols board temp = board_compute board temp"
  using assms by (simp add: board_compute_eq board_compute_openmp_eq)


theorem openmp_equals_sequential_witness:
  "wf_grid (grid_of (hline 5 7)) \<and> wf_grid (grid_of [(0, 0)]) \<and>
   is_schedule kBoardHeight (rev [0..<kBoardHeight]) \<and>
   list_all (\<lambda>i. is_schedule kBoardWidth (rev [0..<kBoardWidth])) [0..<kBoardHeight] \<and>
   board_compute_openmp (rev [0..<kBoardHeight]) (\<lambda>i. rev [0..<kBoardWidth])
       (grid_of (hline 5 7)) (grid_of [(0, 0)]) =
     board_compute (grid_of (hline 5 7)) (grid_of [(0, 0)])"
proof -
  have c: "list_all (\<lambda>i. is_schedule kBoardWidth (rev [0..<kBoardWidth])) [0..<kBoardHeight]"
    by (simp add: list_all_iff is_schedule_rev)
  show ?thesis
    using openmp_equals_sequential [OF wf_grid_of wf_grid_of is_schedule_rev,
        of "\<lambda>i. rev [0..<kBoardWidth]" "hline 5 7" "[(0, 0)]"] c
    by (simp add: wf_grid_of is_schedule_rev)
qed

text \<open>
  C2: the value \<open>board_compute_thread\<close> stores for a cell is 1 when the cell is 0
  and the count is 3, or the cell is 1 and the count is 2 or 3, and 0 for every other
  combination; so a dead cell with count 3 is born, an alive cell with count 2 or 3
  survives, and a dead cell with count 2 or 4 stays dead.
\<close>

theorem transition_rule:
  assumes "wf_grid temp" and "height < kBoardHeight" and "width < kBoardWidth"
  shows "board_compute_thread board temp height ! height ! width =
           (if board ! height ! width = 0 \<and> count_around board height width = 3
               \<or> board ! height ! width = 1
                 \<and> (count_around board height width = 2 \<or> count_around board height width = 3)
            then 1 else 0)
         \<and> next_state 0 3 = 1 \<and> next_state 1 2 = 1 \<and> next_state 1 3 = 1
         \<and> next_state 0 2 = 0 \<and> next_state 0 4 = 0"
  using assms by (simp add: nth_board_compute_thread next_state_def)

theorem transition_rule_witness:
  "wf_grid (grid_of [(9, 9)]) \<and> (4::nat) < kBoardHeight \<and> (7::nat) < kBoardWidth \<and>
   grid_of (hline 5 7) ! 4 ! 7 = 0 \<and> count_around (grid_of (hline 5 7)) 4 7 = 3 \<and>
   board_compute_thread (grid_of (hline 5 7)) (grid_of [(9, 9)]) 4 ! 4 ! 7 = 1"
  using transition_rule [of "grid_of [(9, 9)]" 4 7 "grid_of (hline 5 7)"]
  by (simp add: wf_grid_of cell_simps hline_def)

text \<open>
  C3: the count the code accumulates for a cell of the grid is the sum of the cells
  at the surrounding coordinates that lie inside the grid, and nothing else; and on the
  grid whose only live cells are (0,1), (1,0) and (1,1), cell (0,0) is alive after one
  generation.
\<close>

theorem neighbour_count_clipped:
  assumes "h < kBoardHeight" and "w < kBoardWidth" and "wf_grid temp"
  shows "count_around board h w = clipped_sum_spec board h w \<and>
         fst (board_compute (grid_of [(0, 1), (1, 0), (1, 1)]) temp) ! 0 ! 0 = 1"
proof
  show "count_around board h w = clipped_sum_spec board h w"
    using assms(1,2) by (rule count_around_clipped)
next
  have "fst (board_compute (grid_of [(0, 1), (1, 0), (1, 1)]) temp) ! 0 ! 0 =
        next_grid (grid_of [(0, 1), (1, 0), (1, 1)]) ! 0 ! 0"
    using assms(3) by (simp add: board_compute_eq wf_grid_of)
  also have "\<dots> = 1"
    by (simp add: next_grid_def cell_simps)
  finally show "fst (board_compute (grid_of [(0, 1), (1, 0), (1, 1)]) temp) ! 0 ! 0 = 1" .
qed

theorem neighbour_count_clipped_witness:
  "(0::nat) < kBoardHeight \<and> (0::nat) < kBoardWidth \<and> wf_grid dead_grid \<and>
   neighbours_spec 0 0 = [(0, 1), (1, 0), (1, 1)] \<and>
   count_around (grid_of [(0, 1), (1, 0), (1, 1)]) 0 0 = 3 \<and>
   fst (board_compute (grid_of [(0, 1), (1, 0), (1, 1)]) dead_grid) ! 0 ! 0 = 1"
proof -
  have w: "wf_grid dead_grid"
    by (simp add: wf_grid_def dead_grid_def list_all_iff)
  have n: "neighbours_spec 0 0 = [(0, 1), (1, 0), (1, 1)]"
    by (simp add: neighbours_spec_def offsets_def in_grid_def kBoardHeight_def kBoardWidth_def)
  have s: "clipped_sum_spec (grid_of [(0, 1), (1, 0), (1, 1)]) 0 0 = 3"
    by (simp add: clipped_sum_spec_def n nth_grid_of kBoardHeight_def kBoardWidth_def)
  show ?thesis
    using neighbour_count_clipped [of 0 0 dead_grid "grid_of [(0, 1), (1, 0), (1, 1)]"] w n s
    by (simp add: kBoardHeight_def kBoardWidth_def)
qed

text \<open>
  C4: after a generation computed by either strategy on a grid of binary cells, each
  cell of the current buffer is the specification's transition rule applied to the cell's
  prior value and to the number of live neighbours in the prior current buffer.
\<close>

theorem generation_applies_rule:
  assumes "wf_grid board" and "wf_grid temp" and "binary_grid board"
    and "is_schedule kBoardHeight rows"
    and "list_all (\<lambda>i. is_schedule kBoardWidth (cols i)) [0..<kBoardHeight]"
    and "h < kBoardHeight" and "w < kBoardWidth"
  shows "fst (board_compute board temp) ! h ! w =
           (if nextState_spec (board ! h ! w = 1) (live_neighbours_spec board h w) then 1 else 0)
         \<and> fst (board_compute_openmp rows cols board temp) ! h ! w =
           (if nextState_spec (board ! h ! w = 1) (live_neighbours_spec board h w) then 1 else 0)"
proof -
  have "live_neighbours_spec board h w \<le> 8"
    unfolding live_neighbours_spec_def
    by (rule order_trans [OF length_filter_le length_neighbours])
  moreover have "board ! h ! w = 0 \<or> board ! h ! w = 1"
    using assms by (simp add: binary_grid_nth)
  ultimately have "next_state (board ! h ! w) (count_around board h w) =
      (if nextState_spec (board ! h ! w = 1) (live_neighbours_spec board h w) then 1 else 0)"
    using assms by (simp add: count_around_live next_state_spec)
  then show ?thesis
    using assms by (simp add: board_compute_eq board_compute_openmp_eq nth_next_grid)
qed

theorem generation_applies_rule_witness:
  "wf_grid (grid_of (hline 5 7)) \<and> wf_grid dead_grid \<and> binary_grid (grid_of (hline 5 7)) \<and>
   is_schedule kBoardHeight (rev [0..<kBoardHeight]) \<and>
   list_all (\<lambda>i. is_schedule kBoardWidth (rev [0..<kBoardWidth])) [0..<kBoardHeight] \<and>
   (4::nat) < kBoardHeight \<and> (7::nat) < kBoardWidth \<and>
   live_neighbours_spec (grid_of (hline 5 7)) 4 7 = 3 \<and>
   fst (board_compute (grid_of (hline 5 7)) dead_grid) ! 4 ! 7 = 1 \<and>
   fst (board_compute_openmp (rev [0..<kBoardHeight]) (\<lambda>i. rev [0..<kBoardWidth])
          (grid_of (hline 5 7)) dead_grid) ! 4 ! 7 = 1"
proof -
  have w: "wf_grid dead_grid"
    by (simp add: wf_grid_def dead_grid_def list_all_iff)
  have c: "list_all (\<lambda>i. is_schedule kBoardWidth (rev [0..<kBoardWidth])) [0..<kBoardHeight]"
    by (simp add: list_all_iff is_schedule_rev)
  have n: "live_neighbours_spec (grid_of (hline 5 7)) 4 7 = 3"
    by (simp add: live_neighbours_spec_def neighbours_spec_def offsets_def in_grid_def
        nth_grid_of hline_def kBoardHeight_def kBoardWidth_def)
  have h: "(4::nat) < kBoardHeight" "(7::nat) < kBoardWidth"
    by (simp_all add: kBoardHeight_def kBoardWidth_def)
  have z: "grid_of (hline 5 7) ! 4 ! 7 = 0"
    by (simp add: nth_grid_of hline_def kBoardHeight_def kBoardWidth_def)
  show ?thesis
    using generation_applies_rule [OF wf_grid_of w binary_grid_of is_schedule_rev c h,
        of "hline 5 7"] w c n h z
    by (simp add: wf_grid_of binary_grid_of is_schedule_rev nextState_spec_def)
qed

text \<open>
  C5: \<open>board_reset\<close> leaves every cell of both buffers dead, and a second reset
  changes nothing.
\<close>

theorem reset_clears_and_is_idempotent:
  assumes "wf_game game"
  shows "game_board (board_reset game) = dead_grid \<and> game_temp (board_reset game) = dead_grid \<and>
         board_reset (board_reset game) = board_reset game"
proof -
  have "wf_game \<lparr>game_board = dead_grid, game_temp = dead_grid\<rparr>"
    by (simp add: wf_game_def wf_dead_grid)
  then show ?thesis using assms by (simp add: board_reset_eq)
qed

theorem reset_clears_and_is_idempotent_witness:
  "wf_game \<lparr>game_board = grid_of (block 3 4), game_temp = grid_of (hline 5 7)\<rparr> \<and>
   game_board (board_reset \<lparr>game_board = grid_of (block 3 4), game_temp = grid_of (hline 5 7)\<rparr>)
     = dead_grid \<and>
   game_temp (board_reset \<lparr>game_board = grid_of (block 3 4), game_temp = grid_of (hline 5 7)\<rparr>)
     = dead_grid \<and>
   board_reset (board_reset \<lparr>game_board = grid_of (block 3 4), game_temp = grid_of (hline 5 7)\<rparr>)
     = board_reset \<lparr>game_board = grid_of (block 3 4), game_temp = grid_of (hline 5 7)\<rparr>"
  using reset_clears_and_is_idempotent
    [of "\<lparr>game_board = grid_of (block 3 4), game_temp = grid_of (hline 5 7)\<rparr>"]
  by (simp add: wf_game_def wf_grid_of)

text \<open>
  C6: a 2 by 2 block of live cells that does not touch the edge of the grid, every other
  cell dead, is unchanged by one generation.
\<close>

theorem block_still_life:
  assumes "1 \<le> r" and "r + 2 < kBoardHeight" and "1 \<le> c" and "c + 2 < kBoardWidth"
    and "wf_grid temp"
  shows "fst (board_compute (grid_of (block r c)) temp) = grid_of (block r c)"
  using assms by (simp add: board_compute_eq wf_grid_of block_generation)

theorem block_still_life_witness:
  "(1::nat) \<le> 3 \<and> (3::nat) + 2 < kBoardHeight \<and> (1::nat) \<le> 4 \<and> (4::nat) + 2 < kBoardWidth \<and>
   wf_grid (grid_of (hline 9 9)) \<and>
   grid_of (block 3 4) ! 3 ! 4 = 1 \<and> grid_of (block 3 4) ! 2 ! 4 = 0 \<and>
   fst (board_compute (grid_of (block 3 4)) (grid_of (hline 9 9))) = grid_of (block 3 4)"
  using block_still_life [of 3 4 "grid_of (hline 9 9)"]
  by (simp add: wf_grid_of nth_grid_of block_def kBoardHeight_def kBoardWidth_def)

text \<open>
  C7: the horizontal line of three live cells centred at \<open>(r, c)\<close>, with
  \<open>1 \<le> r \<le> height - 2\<close>, \<open>1 \<le> c - 1\<close> and \<open>c + 1 \<le> width - 2\<close>, every other
  cell dead, becomes the vertical line through \<open>(r, c)\<close> after one generation and is
  back after a second one, computed on the buffers the first one left.
\<close>

theorem blinker_oscillates:
  assumes "1 \<le> r" and "r \<le> kBoardHeight - 2" and "1 \<le> c - 1" and "c + 1 \<le> kBoardWidth - 2"
    and "wf_grid temp"
  shows "(let first = board_compute (grid_of (hline r c)) temp;
              second = board_compute (fst first) (snd first)
          in fst first = grid_of (vline r c) \<and> fst second = grid_of (hline r c))"
proof -
  have b: "1 \<le> r" "r + 1 < kBoardHeight" "1 \<le> c" "c + 1 < kBoardWidth"
    using assms(1-4) by (simp_all add: kBoardHeight_def kBoardWidth_def)
  have "board_compute (grid_of (hline r c)) temp = (grid_of (vline r c), grid_of (vline r c))"
    using assms(5) b by (simp add: board_compute_eq wf_grid_of hline_generation)
  moreover have "board_compute (grid_of (vline r c)) (grid_of (vline r c)) =
      (grid_of (hline r c), grid_of (hline r c))"
    using b by (simp add: board_compute_eq wf_grid_of vline_generation)
  ultimately show ?thesis by (simp add: Let_def)
qed

theorem blinker_oscillates_witness:
  "(1::nat) \<le> 5 \<and> (5::nat) \<le> kBoardHeight - 2 \<and> (1::nat) \<le> 7 - 1 \<and>
   (7::nat) + 1 \<le> kBoardWidth - 2 \<and> wf_grid dead_grid \<and>
   hline 5 7 = [(5, 6), (5, 7), (5, 8)] \<and> vline 5 7 = [(4, 7), (5, 7), (6, 7)] \<and>
   fst (board_compute (grid_of (hline 5 7)) dead_grid) = grid_of (vline 5 7) \<and>
   fst (board_compute (fst (board_compute (grid_of (hline 5 7)) dead_grid))
          (snd (board_compute (grid_of (hline 5 7)) dead_grid))) = grid_of (hline 5 7)"
proof -
  have h: "(1::nat) \<le> 5" "(5::nat) \<le> kBoardHeight - 2" "(1::nat) \<le> 7 - 1"
    "(7::nat) + 1 \<le> kBoardWidth - 2"
    by (simp_all add: kBoardHeight_def kBoardWidth_def)
  have p: "hline 5 7 = [(5, 6), (5, 7), (5, 8)]" "vline 5 7 = [(4, 7), (5, 7), (6, 7)]"
    by (simp_all add: hline_def vline_def)
  show ?thesis
    using blinker_oscillates [OF h wf_dead_grid, unfolded Let_def] h p wf_dead_grid
    by blast
qed

text \<open>
  C8: as amended. With no argument the program starts with the sequential strategy,
  with the single argument \<open>--openmp\<close> with the parallel one; the single arguments
  \<open>--thread\<close> and \<open>--opengl\<close> are accepted as well and keep the sequential strategy;
  any other single argument, and any longer command line, ends the program with
  \<open>EXIT_FAILURE\<close> before the simulation starts.
\<close>

theorem startup_strategy:
  "selected_strategy argv =
     (if length argv = 1 then Inr Board_compute
      else if length argv = 2 \<and> argv ! 1 = ''--openmp'' then Inr Board_compute_openmp
      else if length argv = 2 \<and> (argv ! 1 = ''--thread'' \<or> argv ! 1 = ''--opengl'')
        then Inr Board_compute
      else Inl EXIT_FAILURE)"
  by (simp add: selected_strategy_def main_startup_def)

text \<open>
  C8 as stated fails: \<open>--thread\<close> is a supplied argument other than the one that selects
  the parallel strategy, and the program starts with it.
\<close>

theorem thread_option_starts:
  "main_startup [''gamelive'', ''--thread''] =
     Inr \<lparr>computeBoardFunc = Board_compute, drawBoardFunc = Draw_board_multithread,
          useOpenGL = None\<rparr>"
  by (simp add: main_startup_def)

text \<open>
  C9: when either strategy returns, the temp buffer equals the board buffer, and both
  hold the new generation: every cell of either buffer is the value of lines 222 to 236
  for the cell and the count of the board as it was before the call.
\<close>

theorem buffers_equal_after_generation:
  assumes "wf_grid board" and "wf_grid temp"
    and "is_schedule kBoardHeight rows"
    and "list_all (\<lambda>i. is_schedule kBoardWidth (cols i)) [0..<kBoardHeight]"
  shows "snd (board_compute board temp) = fst (board_compute board temp) \<and>
         fst (board_compute board temp) = next_grid board \<and>
         snd (board_compute board temp) = next_grid board \<and>
         snd (board_compute_openmp rows cols board temp) =
           fst (board_compute_openmp rows cols board temp) \<and>
         fst (board_compute_openmp rows cols board temp) = next_grid board \<and>
         snd (board_compute_openmp rows cols board temp) = next_grid board"
  using assms by (simp add: board_compute_eq board_compute_openmp_eq)

theorem buffers_equal_after_generation_witness:
  "wf_grid (grid_of (block 3 4)) \<and> wf_grid (grid_of (vline 8 8)) \<and>
   is_schedule kBoardHeight (rev [0..<kBoardHeight]) \<and>
   list_all (\<lambda>i. is_schedule kBoardWidth (rev [0..<kBoardWidth])) [0..<kBoardHeight] \<and>
   grid_of (vline 8 8) ! 8 ! 8 = 1 \<and> grid_of (block 3 4) ! 8 ! 8 = 0 \<and>
   fst (board_compute (grid_of (block 3 4)) (grid_of (vline 8 8))) = grid_of (block 3 4) \<and>
   snd (board_compute (grid_of (block 3 4)) (grid_of (vline 8 8))) = grid_of (block 3 4) \<and>
   fst (board_compute_openmp (rev [0..<kBoardHeight]) (\<lambda>i. rev [0..<kBoardWidth])
          (grid_of (block 3 4)) (grid_of (vline 8 8))) = grid_of (block 3 4) \<and>
   snd (board_compute_openmp (rev [0..<kBoardHeight]) (\<lambda>i. rev [0..<kBoardWidth])
          (grid_of (block 3 4)) (grid_of (vline 8 8))) = grid_of (block 3 4)"
proof -
  have c: "list_all (\<lambda>i. is_schedule kBoardWidth (rev [0..<kBoardWidth])) [0..<kBoardHeight]"
    by (simp add: list_all_iff is_schedule_rev)
  have g: "next_grid (grid_of (block 3 4)) = grid_of (block 3 4)"
    by (rule block_generation) (simp_all add: kBoardHeight_def kBoardWidth_def)
  have v: "grid_of (vline 8 8) ! 8 ! 8 = 1" "grid_of (block 3 4) ! 8 ! 8 = 0"
    by (simp_all add: nth_grid_of vline_def block_def kBoardHeight_def kBoardWidth_def)
  show ?thesis
    using buffers_equal_after_generation [OF wf_grid_of wf_grid_of is_schedule_rev c,
        of "block 3 4" "vline 8 8"] c g v
    by (simp add: wf_grid_of is_schedule_rev)
qed

text \<open>
  C10: whatever values the cells of the two buffers hold before, after
  \<open>board_compute\<close> every cell of both buffers is 0 or 1.
\<close>

theorem generation_restores_binary:
  assumes "wf_grid board" and "wf_grid temp"
  shows "binary_grid (fst (board_compute board temp)) \<and>
         binary_grid (snd (board_compute board temp))"
  using assms by (simp add: board_compute_eq binary_next_grid)

theorem generation_restores_binary_witness:
  "wf_grid (replicate kBoardHeight (replicate kBoardWidth 7)) \<and>
   wf_grid (replicate kBoardHeight (replicate kBoardWidth (- 1))) \<and>
   \<not> binary_grid (replicate kBoardHeight (replicate kBoardWidth 7)) \<and>
   binary_grid (fst (board_compute (replicate kBoardHeight (replicate kBoardWidth 7))
                       (replicate kBoardHeight (replicate kBoardWidth (- 1))))) \<and>
   binary_grid (snd (board_compute (replicate kBoardHeight (replicate kBoardWidth 7))
                       (replicate kBoardHeight (replicate kBoardWidth (- 1)))))"
proof -
  have w: "wf_grid (replicate kBoardHeight (replicate kBoardWidth v))" for v
    by (simp add: wf_grid_def list_all_iff)
  have n: "\<not> binary_grid (replicate kBoardHeight (replicate kBoardWidth 7))"
    by (simp add: binary_grid_def list_all_iff kBoardHeight_def kBoardWidth_def)
  show ?thesis
    using generation_restores_binary [OF w w, of 7 "- 1"] w n by simp
qed

end
